theory Spec2Isabelle
  imports Complex_Main "HOL-Library.Word" "HOL-Library.Sublist"
begin

section \<open>Transcription sessions (app.py, the session table and its routes)\<close>

text \<open>
  A \<open>datetime\<close> is a count of microseconds, the resolution of Python's \<open>datetime\<close>; the
  difference of two of them is a \<open>timedelta\<close>, again in microseconds. Every reading of
  \<open>datetime.now()\<close> is an argument of the operation that reads it. The \<open>timestamp\<close> of a
  transcript entry is kept as the reading itself (the source stores its \<open>isoformat()\<close>).
  The request body of a Feed call is a list of bytes.
\<close>

type_synonym datetime = int
type_synonym bytes = "8 word list"

record transcript_entry =
  entry_text :: string
  timestamp :: datetime
  speakers :: "string list"
  confidence :: real

record aws_client =
  region_name :: string
  aws_access_key_id :: string
  aws_secret_access_key :: string

record session =
  start_time :: datetime
  transcript :: "transcript_entry list"
  session_speakers :: "string \<rightharpoonup> bool"
  session_id :: string
  is_active :: bool
  session_aws_client :: aws_client

type_synonym sessions = "string \<rightharpoonup> session"

text \<open>
  A route answers with a status code and a JSON body; the body is either
  \<open>{"error": msg}\<close> or the dictionary of the successful case.
\<close>

datatype 'a body = ErrorBody string | Json 'a

type_synonym 'a response = "nat \<times> 'a body"

definition total_seconds :: "int \<Rightarrow> real" where
  "total_seconds delta = real_of_int delta / 1000000"

subsection \<open>Start\<close>

record start_result =
  started_session_id :: string
  started_status :: string
  started_note :: string

definition start_transcription_session ::
  "aws_client option \<Rightarrow> datetime \<Rightarrow> string \<Rightarrow> sessions \<Rightarrow> start_result body \<times> sessions" where
  "start_transcription_session transcribe_client now sid active_sessions =
     (case transcribe_client of
        None \<Rightarrow>
          (ErrorBody ''AWS Transcribe not configured. Please set AWS_ACCESS_KEY_ID and AWS_SECRET_ACCESS_KEY environment variables.'',
           active_sessions)
      | Some c \<Rightarrow>
          (Json \<lparr>started_session_id = sid, started_status = ''started'',
                 started_note = ''AWS Transcribe session created successfully. Ready for real-time streaming.''\<rparr>,
           active_sessions(sid \<mapsto>
             \<lparr>start_time = now, transcript = [], session_speakers = Map.empty,
              session_id = sid, is_active = True, session_aws_client = c\<rparr>)))"

text \<open>The route mints the identifier with \<open>uuid.uuid4()\<close>; it is the argument \<open>uuid\<close>.\<close>

definition start_transcription ::
  "aws_client option \<Rightarrow> datetime \<Rightarrow> string \<Rightarrow> sessions \<Rightarrow> start_result response \<times> sessions" where
  "start_transcription transcribe_client now uuid active_sessions =
     (case start_transcription_session transcribe_client now uuid active_sessions of
        (ErrorBody msg, tbl) \<Rightarrow> ((400, ErrorBody msg), tbl)
      | (Json r, tbl) \<Rightarrow> ((200, Json r), tbl))"

subsection \<open>Feed\<close>

text \<open>
  The four draws of the \<open>random\<close> module made by one Feed call: the value of
  \<open>random.random()\<close>, the index picked by \<open>random.choice\<close>, the value of
  \<open>random.randint(1, 3)\<close> and the value of \<open>random.random()\<close> inside
  \<open>random.uniform\<close>, which returns \<open>a + (b - a) * random()\<close>.
\<close>

record draws =
  draw_random :: real
  draw_choice :: nat
  draw_randint :: int
  draw_uniform :: real

definition mock_texts :: "string list" where
  "mock_texts =
     [''Hello, how are you today?'',
      ''I'm doing well, thank you for asking.'',
      ''What brings you here today?'',
      ''I have an appointment scheduled.'',
      ''Let me check your records.'',
      ''Everything looks good so far.'',
      ''Do you have any questions?'',
      ''Thank you for your time.'',
      ''The patient reports feeling better.'',
      ''We should schedule a follow-up appointment.'',
      ''The medication seems to be working well.'',
      ''Please take this prescription to the pharmacy.'']"


definition uniform :: "real \<Rightarrow> real \<Rightarrow> real \<Rightarrow> real" where
  "uniform a b u = a + (b - a) * u"

fun digit_char :: "nat \<Rightarrow> char" where
  "digit_char n = ''0123456789'' ! (n mod 10)"

fun str_nat :: "nat \<Rightarrow> string" where
  "str_nat n = (if n < 10 then [digit_char n] else str_nat (n div 10) @ [digit_char n])"

declare str_nat.simps [simp del]

definition str_int :: "int \<Rightarrow> string" where
  "str_int i = (if i < 0 then CHR ''-'' # str_nat (nat (- i)) else str_nat (nat i))"

record feed_result =
  feed_status :: string
  feed_session_id :: string
  audio_size :: nat
  transcript_count :: nat

definition mock_entry :: "datetime \<Rightarrow> draws \<Rightarrow> transcript_entry" where
  "mock_entry now d =
     \<lparr>entry_text = mock_texts ! draw_choice d,
      timestamp = now,
      speakers = [''Speaker_'' @ str_int (draw_randint d)],
      confidence = uniform (85 / 100) (98 / 100) (draw_uniform d)\<rparr>"

definition stream_transcription ::
  "string \<Rightarrow> bytes \<Rightarrow> datetime \<Rightarrow> draws \<Rightarrow> sessions \<Rightarrow> feed_result response \<times> sessions" where
  "stream_transcription sid audio_data now d active_sessions =
     (case active_sessions sid of
        None \<Rightarrow> ((404, ErrorBody ''Session not found''), active_sessions)
      | Some s \<Rightarrow>
          if audio_data = [] then ((400, ErrorBody ''No audio data provided''), active_sessions)
          else
            let audio_length = length audio_data;
                s' = (if audio_length > 1000
                      then (if draw_random d < 4 / 10
                            then s\<lparr>transcript := transcript s @ [mock_entry now d]\<rparr>
                            else s)
                      else s)
            in ((200, Json \<lparr>feed_status = ''audio_processed'', feed_session_id = sid,
                            audio_size = length audio_data,
                            transcript_count = length (transcript s')\<rparr>),
                active_sessions(sid \<mapsto> s')))"

subsection \<open>Observe\<close>

text \<open>
  The generator of the event stream polls the session table, which other requests change
  between two polls. Its environment is the list of what it finds at each poll: the table
  and the reading of the clock. Its behaviour is the list of what it does: an event sent,
  or a sleep of so many seconds. An environment that ends stands for a client that stops
  reading; the generator itself stops at the first poll that does not find the session.
\<close>

record event =
  event_session_id :: string
  event_transcript :: "transcript_entry list"
  event_timestamp :: datetime

datatype action = Yield event | Sleep nat

definition last_n :: "nat \<Rightarrow> 'a list \<Rightarrow> 'a list" where
  "last_n n xs = drop (length xs - n) xs"

fun generate :: "string \<Rightarrow> (sessions \<times> datetime) list \<Rightarrow> action list" where
  "generate sid [] = []"
| "generate sid ((active_sessions, now) # polls) =
     (case active_sessions sid of
        None \<Rightarrow> []
      | Some s \<Rightarrow>
          (if transcript s \<noteq> []
           then [Yield \<lparr>event_session_id = sid, event_transcript = last_n 5 (transcript s),
                        event_timestamp = now\<rparr>]
           else [])
          @ Sleep 1 # generate sid polls)"

definition get_transcription_events ::
  "string \<Rightarrow> (sessions \<times> datetime) list \<Rightarrow> nat \<times> action list" where
  "get_transcription_events sid polls = (200, generate sid polls)"

subsection \<open>End\<close>

record end_result =
  end_session_id :: string
  final_transcript :: "transcript_entry list"
  duration :: real
  total_entries :: nat

definition end_transcription_session ::
  "string \<Rightarrow> datetime \<Rightarrow> sessions \<Rightarrow> end_result body \<times> sessions" where
  "end_transcription_session sid now active_sessions =
     (case active_sessions sid of
        None \<Rightarrow> (ErrorBody ''Session not found'', active_sessions)
      | Some s \<Rightarrow>
          (Json \<lparr>end_session_id = sid, final_transcript = transcript s,
                 duration = total_seconds (now - start_time s),
                 total_entries = length (transcript s)\<rparr>,
           active_sessions(sid := None)))"

definition end_transcription ::
  "string \<Rightarrow> datetime \<Rightarrow> sessions \<Rightarrow> end_result response \<times> sessions" where
  "end_transcription sid now active_sessions =
     (case end_transcription_session sid now active_sessions of
        (ErrorBody msg, tbl) \<Rightarrow> ((400, ErrorBody msg), tbl)
      | (Json r, tbl) \<Rightarrow> ((200, Json r), tbl))"

subsection \<open>Runs of the session table\<close>

text \<open>
  The requests that change the session table, each with what it reads from its
  environment (the reading of the clock, the identifier minted, the draws of the random
  module), and the table after a list of them, handled one after the other from the
  table given. The process starts with the empty table.
\<close>

datatype request =
    StartReq "aws_client option" datetime string
  | FeedReq string bytes datetime draws
  | EndReq string datetime

fun handle :: "request \<Rightarrow> sessions \<Rightarrow> sessions" where
  "handle (StartReq c now uuid) tbl = snd (start_transcription c now uuid tbl)"
| "handle (FeedReq sid audio now d) tbl = snd (stream_transcription sid audio now d tbl)"
| "handle (EndReq sid now) tbl = snd (end_transcription sid now tbl)"

fun run :: "request list \<Rightarrow> sessions \<Rightarrow> sessions" where
  "run [] tbl = tbl"
| "run (r # rs) tbl = run rs (handle r tbl)"

fun mints :: "string \<Rightarrow> request \<Rightarrow> bool" where
  "mints sid (StartReq c now uuid) = (uuid = sid)"
| "mints sid (FeedReq sid' audio now d) = False"
| "mints sid (EndReq sid' now) = False"





section \<open>Python strings\<close>

text \<open>
  A Python \<open>str\<close> is modelled as a \<open>string\<close>, a list of characters with code points
  below 256; \<open>len\<close> is \<open>length\<close>. On these code points \<open>str.isspace\<close>, the line
  boundaries of \<open>str.splitlines\<close> and \<open>str.lower\<close> are as follows.
\<close>

definition LF :: char where
  "LF = CHR 0x0A"

definition CR :: char where
  "CR = CHR 0x0D"

definition py_isspace :: "char \<Rightarrow> bool" where
  "py_isspace c \<longleftrightarrow>
     c \<in> set [CHR 0x09, CHR 0x0A, CHR 0x0B, CHR 0x0C, CHR 0x0D, CHR 0x1C, CHR 0x1D,
               CHR 0x1E, CHR 0x1F, CHR 0x20, CHR 0x85, CHR 0xA0]"

definition py_strip :: "string \<Rightarrow> string" where
  "py_strip s = rev (dropWhile py_isspace (rev (dropWhile py_isspace s)))"

text \<open>
  The slices \<open>s[:k]\<close> and \<open>s[k:]\<close>: a negative index counts from the end, and an index
  out of range is clipped (a slice never raises).
\<close>

definition slice_to :: "int \<Rightarrow> 'a list \<Rightarrow> 'a list" where
  "slice_to k xs = (if k < 0 then take (length xs - nat (- k)) xs else take (nat k) xs)"

definition slice_from :: "int \<Rightarrow> 'a list \<Rightarrow> 'a list" where
  "slice_from k xs = (if k < 0 then drop (length xs - nat (- k)) xs else drop (nat k) xs)"

section \<open>Summary text preparer (truncate_text)\<close>

definition truncation_marker :: string where
  "truncation_marker = [LF, LF] @ ''[...truncated...]'' @ [LF, LF]"

definition truncate_text :: "string \<Rightarrow> int \<Rightarrow> string" where
  "truncate_text text max_chars =
     (if int (length text) \<le> max_chars then text
      else
        let head = slice_to (max_chars - 1000) text;
            tail = slice_from (- 1000) text
        in head @ truncation_marker @ tail)"

section \<open>Fallback summarizer (naive_placeholder_summary)\<close>

subsection \<open>The string methods it uses\<close>

text \<open>\<open>s.replace("\n\n", "\n")\<close>: the occurrences are replaced from left to right, without overlap.\<close>

fun replace_blank_lines :: "string \<Rightarrow> string" where
  "replace_blank_lines (a # b # cs) =
     (if a = LF \<and> b = LF then LF # replace_blank_lines cs
      else a # replace_blank_lines (b # cs))"
| "replace_blank_lines cs = cs"

definition py_linebreak :: "char \<Rightarrow> bool" where
  "py_linebreak c \<longleftrightarrow>
     c \<in> set [CHR 0x0A, CHR 0x0B, CHR 0x0C, CHR 0x0D, CHR 0x1C, CHR 0x1D, CHR 0x1E, CHR 0x85]"

text \<open>
  \<open>s.splitlines()\<close>: the line being read is kept reversed in \<open>cur\<close>; a carriage return
  followed by a line feed is one boundary; no empty line is made after a final boundary.
\<close>

fun splitlines_from :: "string \<Rightarrow> string \<Rightarrow> string list" where
  "splitlines_from cur [] = (if cur = [] then [] else [rev cur])"
| "splitlines_from cur (c # cs) =
     (if py_linebreak c then
        (case cs of
           d # ds \<Rightarrow>
             if c = CR \<and> d = LF then rev cur # splitlines_from [] ds
             else rev cur # splitlines_from [] cs
         | [] \<Rightarrow> rev cur # splitlines_from [] cs)
      else splitlines_from (c # cur) cs)"

declare splitlines_from.simps(2) [simp del]

definition splitlines :: "string \<Rightarrow> string list" where
  "splitlines s = splitlines_from [] s"

definition py_lower_char :: "char \<Rightarrow> char" where
  "py_lower_char c =
     (let n = (of_char c :: nat)
      in if (65 \<le> n \<and> n \<le> 90) \<or> (192 \<le> n \<and> n \<le> 222 \<and> n \<noteq> 215)
         then char_of (n + 32) else c)"

definition py_lower :: "string \<Rightarrow> string" where
  "py_lower s = map py_lower_char s"

text \<open>\<open>k in s\<close> on strings: \<open>k\<close> occurs in \<open>s\<close> as a run of consecutive characters.\<close>

fun str_contains :: "string \<Rightarrow> string \<Rightarrow> bool" where
  "str_contains k [] = (k = [])"
| "str_contains k (c # cs) = (prefix k (c # cs) \<or> str_contains k cs)"

fun join :: "string \<Rightarrow> string list \<Rightarrow> string" where
  "join sep [] = []"
| "join sep [x] = x"
| "join sep (x # y # ys) = x @ sep @ join sep (y # ys)"

subsection \<open>textwrap.dedent\<close>

text \<open>
  The library function, as its documentation and its code have it. Its regular
  expressions work line by line, a line ending at a line feed only: a line of spaces and
  tabs alone is made empty; the indent of a line that has another character is its leading
  run of spaces and tabs; the margin is narrowed, from the first indent on, to what all
  indents share; a margin that is not empty is removed from the start of each line that
  starts with it.
\<close>

fun split_lf :: "string \<Rightarrow> string list" where
  "split_lf [] = [[]]"
| "split_lf (c # cs) =
     (if c = LF then [] # split_lf cs
      else (case split_lf cs of l # ls \<Rightarrow> (c # l) # ls | [] \<Rightarrow> [[c]]))"

definition blank :: "char \<Rightarrow> bool" where
  "blank c \<longleftrightarrow> c = CHR '' '' \<or> c = CHR 0x09"

definition whitespace_only :: "string \<Rightarrow> bool" where
  "whitespace_only l \<longleftrightarrow> l \<noteq> [] \<and> list_all blank l"

fun common_prefix :: "string \<Rightarrow> string \<Rightarrow> string" where
  "common_prefix (x # xs) (y # ys) = (if x = y then x # common_prefix xs ys else [])"
| "common_prefix xs ys = []"

definition narrow_margin :: "string option \<Rightarrow> string \<Rightarrow> string option" where
  "narrow_margin margin indent =
     (case margin of
        None \<Rightarrow> Some indent
      | Some m \<Rightarrow>
          if prefix m indent then Some m
          else if prefix indent m then Some indent
          else Some (common_prefix m indent))"

definition remove_margin :: "string \<Rightarrow> string \<Rightarrow> string" where
  "remove_margin m l = (if prefix m l then drop (length m) l else l)"

definition dedent :: "string \<Rightarrow> string" where
  "dedent text =
     (let lines = map (\<lambda>l. if whitespace_only l then [] else l) (split_lf text);
          indents = map (takeWhile blank) (filter (\<lambda>l. dropWhile blank l \<noteq> []) lines);
          margin = foldl narrow_margin None indents
      in case margin of
           None \<Rightarrow> join [LF] lines
         | Some m \<Rightarrow>
             if m \<noteq> [] then join [LF] (map (remove_margin m) lines)
             else join [LF] lines)"

subsection \<open>The summarizer\<close>

definition matches :: "string list \<Rightarrow> string \<Rightarrow> bool" where
  "matches keys line = (let low = py_lower line in list_ex (\<lambda>k. str_contains k low) keys)"

fun grep_loop :: "string list \<Rightarrow> string list \<Rightarrow> string list \<Rightarrow> string list" where
  "grep_loop keys hits [] = hits"
| "grep_loop keys hits (line # lines) =
     grep_loop keys (if matches keys line then hits @ [line] else hits) lines"

definition grep :: "string list \<Rightarrow> string list \<Rightarrow> string list" where
  "grep keys lines = slice_to 8 (grep_loop keys [] lines)"

definition sample_lines :: "string \<Rightarrow> string list" where
  "sample_lines combined_text =
     (let sample = replace_blank_lines (slice_to 1200 combined_text)
      in map py_strip (filter (\<lambda>l. py_strip l \<noteq> []) (splitlines sample)))"

definition diagnoses_keys :: "string list" where
  "diagnoses_keys = [''diag'', ''dx'', ''impression'', ''assessment'']"

definition meds_keys :: "string list" where
  "meds_keys = [''med'', ''rx'', ''prescrib'', ''dosage'']"

definition allergies_keys :: "string list" where
  "allergies_keys = [''allerg'', ''reaction'']"

definition procedures_keys :: "string list" where
  "procedures_keys = [''procedure'', ''surgery'', ''operation'']"

text \<open>\<open>'\n'.join('- ' + d for d in hits) or '- (none detected in sample)'\<close>\<close>

definition section_text :: "string list \<Rightarrow> string" where
  "section_text hits =
     (let joined = join [LF] (map (\<lambda>d. ''- '' @ d) hits)
      in if joined \<noteq> [] then joined else ''- (none detected in sample)'')"

text \<open>
  The f-string literal is a line feed, the lines of the body, each one that is not empty
  behind the eight spaces of the source's indentation, and a last line of eight spaces.
  \<open>summary_body\<close> is the body from its first character on, with the indentation \<open>ind\<close>
  in front of its later lines.
\<close>

definition indent8 :: string where
  "indent8 = ''        ''"

definition summary_body :: "string \<Rightarrow> int \<Rightarrow> string \<Rightarrow> string \<Rightarrow> string \<Rightarrow> string \<Rightarrow> string" where
  "summary_body ind file_count diagnoses_text meds_text allergies_text procedures_text =
     ''Placeholder health summary (no API key detected). Processed '' @ str_int file_count @
       '' PDF file(s).'' @ [LF] @
     [LF] @
     ind @ ''High-level overview:'' @ [LF] @
     ind @ ''- The records include multiple visits and findings. This is only a rough, automated draft.'' @ [LF] @
     [LF] @
     ind @ ''Possible diagnoses/assessments noted:'' @ [LF] @
     ind @ diagnoses_text @ [LF] @
     [LF] @
     ind @ ''Possible medications mentioned:'' @ [LF] @
     ind @ meds_text @ [LF] @
     [LF] @
     ind @ ''Possible allergies:'' @ [LF] @
     ind @ allergies_text @ [LF] @
     [LF] @
     ind @ ''Possible procedures:'' @ [LF] @
     ind @ procedures_text @ [LF] @
     [LF] @
     ind @ ''Next steps:'' @ [LF] @
     ind @ ''- Provide an OPENAI_API_KEY to enable an AI-generated, plain-language health history summary.'' @ [LF] @
     ind @ ''- Verify details directly in the source PDFs before using clinically.''"

definition summary_template :: "int \<Rightarrow> string \<Rightarrow> string \<Rightarrow> string \<Rightarrow> string \<Rightarrow> string" where
  "summary_template file_count diagnoses_text meds_text allergies_text procedures_text =
     [LF] @ indent8 @
     summary_body indent8 file_count diagnoses_text meds_text allergies_text procedures_text @
     [LF] @ indent8"

definition naive_placeholder_summary :: "string \<Rightarrow> int \<Rightarrow> string" where
  "naive_placeholder_summary combined_text file_count =
     (let lines = sample_lines combined_text;
          diagnoses = grep diagnoses_keys lines;
          meds = grep meds_keys lines;
          allergies = grep allergies_keys lines;
          procedures = grep procedures_keys lines;
          diagnoses_text = section_text diagnoses;
          meds_text = section_text meds;
          allergies_text = section_text allergies;
          procedures_text = section_text procedures
      in py_strip (dedent (summary_template file_count diagnoses_text meds_text
                             allergies_text procedures_text)))"

subsection \<open>The literal seen as a list of lines\<close>

text \<open>
  For the proofs about \<open>dedent\<close>: a line of the literal is empty, or a text behind the
  literal's indentation, or (the later lines of an interpolated text) a text with no
  indentation. \<open>summary_doc\<close> lists the lines of \<open>summary_body\<close>.
\<close>

datatype item = Blank | Line string | Raw string

fun render :: "string \<Rightarrow> item \<Rightarrow> string" where
  "render ind Blank = []"
| "render ind (Line b) = ind @ b"
| "render ind (Raw b) = b"

definition good :: "string \<Rightarrow> bool" where
  "good b \<longleftrightarrow> b \<noteq> [] \<and> \<not> blank (hd b) \<and> LF \<notin> set b"

fun item_ok :: "item \<Rightarrow> bool" where
  "item_ok Blank = True"
| "item_ok (Line b) = good b"
| "item_ok (Raw b) = good b"

fun is_raw :: "item \<Rightarrow> bool" where
  "is_raw (Raw b) = True"
| "is_raw it = False"

fun indent_of :: "string \<Rightarrow> item \<Rightarrow> string list" where
  "indent_of sp Blank = []"
| "indent_of sp (Line b) = [sp]"
| "indent_of sp (Raw b) = [[]]"

fun section_doc :: "string list \<Rightarrow> item list" where
  "section_doc [] = [Line ''- (none detected in sample)'']"
| "section_doc (h # hs) = Line (''- '' @ h) # map (\<lambda>x. Raw (''- '' @ x)) hs"

definition summary_doc ::
  "int \<Rightarrow> string list \<Rightarrow> string list \<Rightarrow> string list \<Rightarrow> string list \<Rightarrow> item list" where
  "summary_doc file_count diagnoses meds allergies procedures =
     Line (''Placeholder health summary (no API key detected). Processed '' @ str_int file_count @
           '' PDF file(s).'') #
     ([Blank,
       Line ''High-level overview:'',
       Line ''- The records include multiple visits and findings. This is only a rough, automated draft.'',
       Blank,
       Line ''Possible diagnoses/assessments noted:''] @
      section_doc diagnoses @
      [Blank, Line ''Possible medications mentioned:''] @
      section_doc meds @
      [Blank, Line ''Possible allergies:''] @
      section_doc allergies @
      [Blank, Line ''Possible procedures:''] @
      section_doc procedures @
      [Blank,
       Line ''Next steps:'',
       Line ''- Provide an OPENAI_API_KEY to enable an AI-generated, plain-language health history summary.'']) @
     [Line ''- Verify details directly in the source PDFs before using clinically.'']"

section \<open>AI summarization client (call_openai_summary)\<close>

text \<open>
  What the function reads from its environment: the two environment variables (an unset
  variable reads as the empty string), which of the two client libraries was imported,
  whether the legacy module is there at all, whether building the modern client raises,
  and the chat-completion service. The service is a function of the number of the attempt
  (counted from 0) and of the model asked for; it gives the text of the exception raised
  inside the \<open>try\<close> of that attempt, or the content of the first choice of the response.
  The function returns a tuple; besides it, the model records the models asked for, in
  order, one per request sent to the service.
\<close>

datatype client_mode = Modern | Legacy

record openai_env =
  OPENAI_API_KEY :: string
  OPENAI_MODEL :: string
  openai_client_mode :: client_mode
  legacy_module_present :: bool
  client_constructor_error :: "string option"
  chat_completion :: "nat \<Rightarrow> string \<Rightarrow> string + string"

datatype summary_return = Triple bool string string | Pair bool string

definition fixed_models :: "string list" where
  "fixed_models = [''gpt-5'', ''gpt-5-mini'', ''gpt-4o-mini'']"

definition candidate_models :: "openai_env \<Rightarrow> string list" where
  "candidate_models env =
     (let env_model = py_strip (OPENAI_MODEL env)
      in (if env_model \<noteq> [] then [env_model] else []) @ fixed_models)"

definition str_exception :: "string option \<Rightarrow> string" where
  "str_exception e = (case e of None \<Rightarrow> ''None'' | Some msg \<Rightarrow> msg)"

fun try_models ::
  "(nat \<Rightarrow> string \<Rightarrow> string + string) \<Rightarrow> nat \<Rightarrow> string list \<Rightarrow> string option \<Rightarrow>
     string list \<times> summary_return" where
  "try_models api k [] last_error =
     ([], Triple False (''OpenAI call failed across models. Last error: '' @ str_exception last_error) [])"
| "try_models api k (model # models) last_error =
     (case api k model of
        Inr content \<Rightarrow> ([model], Triple True (py_strip content) model)
      | Inl e \<Rightarrow>
          (case try_models api (Suc k) models (Some e) of
             (calls, r) \<Rightarrow> (model # calls, r)))"

definition call_openai_summary :: "openai_env \<Rightarrow> string list \<times> summary_return" where
  "call_openai_summary env =
     (let api_key = py_strip (OPENAI_API_KEY env) in
      if api_key = [] then ([], Triple False [] [])
      else
        (case openai_client_mode env of
           Modern \<Rightarrow>
             (case client_constructor_error env of
                Some e \<Rightarrow> ([], Triple False (''OpenAI client error: '' @ e) [])
              | None \<Rightarrow> try_models (chat_completion env) 0 (candidate_models env) None)
         | Legacy \<Rightarrow>
             if \<not> legacy_module_present env then ([], Pair False ''OpenAI client not available.'')
             else try_models (chat_completion env) 0 (candidate_models env) None))"

section \<open>Concrete inputs for the witnesses\<close>

definition demo_client :: aws_client where
  "demo_client = \<lparr>region_name = ''us-east-1'', aws_access_key_id = ''id'',
                  aws_secret_access_key = ''secret''\<rparr>"

definition demo_session :: session where
  "demo_session = \<lparr>start_time = 0, transcript = [], session_speakers = Map.empty,
                   session_id = ''s1'', is_active = True, session_aws_client = demo_client\<rparr>"

definition demo_draws :: draws where
  "demo_draws = \<lparr>draw_random = 1 / 10, draw_choice = 2, draw_randint = 3,
                 draw_uniform = 1 / 2\<rparr>"

definition demo_entry :: transcript_entry where
  "demo_entry = \<lparr>entry_text = ''What brings you here today?'', timestamp = 5,
                 speakers = [''Speaker_3''], confidence = 915 / 1000\<rparr>"

definition demo_session_fed :: session where
  "demo_session_fed = demo_session\<lparr>transcript := [demo_entry]\<rparr>"

definition demo_audio :: bytes where
  "demo_audio = replicate 1001 0"

definition demo_env :: openai_env where
  "demo_env = \<lparr>OPENAI_API_KEY = ''sk-demo'', OPENAI_MODEL = ''my-model'',
                openai_client_mode = Modern, legacy_module_present = False,
                client_constructor_error = None,
                chat_completion = (\<lambda>k model. if k = 0 then Inl ''model_not_found''
                                               else Inr '' Summary text. '')\<rparr>"

definition demo_env_unset :: openai_env where
  "demo_env_unset = \<lparr>OPENAI_API_KEY = '' '', OPENAI_MODEL = [],
                openai_client_mode = Modern, legacy_module_present = False,
                client_constructor_error = None,
                chat_completion = (\<lambda>k model. Inr ''never asked'')\<rparr>"

definition demo_env_dup :: openai_env where
  "demo_env_dup = \<lparr>OPENAI_API_KEY = ''sk-demo'', OPENAI_MODEL = ''gpt-5'',
                openai_client_mode = Modern, legacy_module_present = False,
                client_constructor_error = None,
                chat_completion = (\<lambda>k model. Inl ''model_not_found'')\<rparr>"





definition demo_text :: string where
  "demo_text = ''Diagnosis: hypertension'' @ [LF] @ '' Rx: lisinopril 10 mg '' @ [LF, LF] @
               ''MEDICATIONS: aspirin''"

section \<open>Properties of the session routes\<close>

text \<open>
  C9. A Feed call on an existing session whose chunk is not empty and has at most 1000
  bytes appends no transcript entry: the session table, hence the transcript and every
  other field of the session, is the one before the call, and the call answers with
  status 200 and the "audio_processed" body.
\<close>

theorem feed_small_chunk_unchanged:
  assumes "active_sessions sid = Some s"
    and "audio_data \<noteq> []"
    and "length audio_data \<le> 1000"
  shows "stream_transcription sid audio_data now d active_sessions =
           ((200, Json \<lparr>feed_status = ''audio_processed'', feed_session_id = sid,
                         audio_size = length audio_data,
                         transcript_count = length (transcript s)\<rparr>), active_sessions)"
  using assms by (simp add: stream_transcription_def map_upd_triv)

theorem feed_small_chunk_unchanged_witness:
  "stream_transcription ''s1'' [1, 2, 3] 7 demo_draws [''s1'' \<mapsto> demo_session] =
     ((200, Json \<lparr>feed_status = ''audio_processed'', feed_session_id = ''s1'',
                   audio_size = 3, transcript_count = 0\<rparr>), [''s1'' \<mapsto> demo_session])"
  using feed_small_chunk_unchanged [of "[''s1'' \<mapsto> demo_session]" "''s1''" demo_session
      "[1, 2, 3]" 7 demo_draws]
  by (simp add: demo_session_def)

text \<open>
  C10. A Feed call on an existing, active session whose request body is empty fails with
  the error "No audio data provided" (status 400) and leaves the session table, and so the
  session and its transcript, unchanged.
\<close>

theorem feed_empty_body_rejected:
  assumes "active_sessions sid = Some s"
    and "is_active s"
  shows "stream_transcription sid [] now d active_sessions =
           ((400, ErrorBody ''No audio data provided''), active_sessions)"
  using assms by (simp add: stream_transcription_def)

theorem feed_empty_body_rejected_witness:
  "stream_transcription ''s1'' [] 7 demo_draws [''s1'' \<mapsto> demo_session] =
     ((400, ErrorBody ''No audio data provided''), [''s1'' \<mapsto> demo_session])"
  using feed_empty_body_rejected [of "[''s1'' \<mapsto> demo_session]" "''s1''" demo_session 7 demo_draws]
  by (simp add: demo_session_def)

subsection \<open>Helper facts\<close>

lemma feed_unknown: "tbl sid = None \<Longrightarrow>
   stream_transcription sid audio now d tbl = ((404, ErrorBody ''Session not found''), tbl)"
  by (simp add: stream_transcription_def)

lemma end_unknown: "tbl sid = None \<Longrightarrow>
   end_transcription sid now tbl = ((400, ErrorBody ''Session not found''), tbl)"
  by (simp add: end_transcription_def end_transcription_session_def)

lemma handle_absent: "tbl sid = None \<Longrightarrow> \<not> mints sid r \<Longrightarrow> handle r tbl sid = None"
  by (cases r)
     (auto simp: start_transcription_def start_transcription_session_def
        stream_transcription_def end_transcription_def end_transcription_session_def Let_def
        split: option.splits)

lemma run_absent: "tbl sid = None \<Longrightarrow> \<forall>r \<in> set rs. \<not> mints sid r \<Longrightarrow> run rs tbl sid = None"
  by (induction rs arbitrary: tbl) (auto simp: handle_absent)

text \<open>
  C4, as the code has it. A Feed call on an unknown session id fails with "Session not
  found" (status 404). A Feed call with a non-empty body on a session id present in the
  table answers 200 with the number of bytes received and the number of entries of the
  session's transcript after the call, whether or not that call appended the synthetic
  entry. (An empty body on a known session is rejected with status 400.)
\<close>

theorem feed_response_spec:
  "(active_sessions sid = None \<longrightarrow>
      stream_transcription sid audio_data now d active_sessions =
        ((404, ErrorBody ''Session not found''), active_sessions)) \<and>
   (\<forall>s. active_sessions sid = Some s \<and> audio_data \<noteq> [] \<longrightarrow>
      (\<exists>r tbl' s'.
         stream_transcription sid audio_data now d active_sessions = ((200, Json r), tbl') \<and>
         feed_session_id r = sid \<and>
         audio_size r = length audio_data \<and>
         tbl' sid = Some s' \<and>
         transcript_count r = length (transcript s') \<and>
         (transcript s' = transcript s \<or> transcript s' = transcript s @ [mock_entry now d])))"
  by (auto simp: stream_transcription_def Let_def)

theorem feed_response_spec_witness:
  "stream_transcription ''nope'' demo_audio 5 demo_draws [''s1'' \<mapsto> demo_session] =
     ((404, ErrorBody ''Session not found''), [''s1'' \<mapsto> demo_session]) \<and>
   (\<exists>r tbl' s'.
      stream_transcription ''s1'' demo_audio 5 demo_draws [''s1'' \<mapsto> demo_session] =
        ((200, Json r), tbl') \<and>
      feed_session_id r = ''s1'' \<and> audio_size r = 1001 \<and> tbl' ''s1'' = Some s' \<and>
      transcript_count r = length (transcript s'))"
  using feed_response_spec [of "[''s1'' \<mapsto> demo_session]" "''nope''" demo_audio 5 demo_draws]
    feed_response_spec [of "[''s1'' \<mapsto> demo_session]" "''s1''" demo_audio 5 demo_draws]
  by (auto simp: demo_audio_def demo_session_def)

text \<open>
  C4 as stated fails: the session \<open>s1\<close> is in the table, the body is empty, and the
  response carries neither the byte count nor the transcript count.
\<close>

theorem feed_empty_body_counterexample:
  "fst (stream_transcription ''s1'' [] 5 demo_draws [''s1'' \<mapsto> demo_session]) =
     (400, ErrorBody ''No audio data provided'')"
  by (simp add: stream_transcription_def)

text \<open>
  What End does, the requests taken one at a time. On an unknown id it fails with
  "Session not found" and returns the table as it was. On a known id it removes the
  session from the table and returns the whole transcript, the seconds between the
  session's start and the call, and the number of entries. After that, and after any
  further requests among which no Start mints the same id again, Feed and End on the id
  answer "Session not found"; Observe answers 200 with a stream that ends at once.
\<close>

lemma end_session_spec:
  "(active_sessions sid = None \<longrightarrow>
      end_transcription sid now active_sessions =
        ((400, ErrorBody ''Session not found''), active_sessions)) \<and>
   (\<forall>s. active_sessions sid = Some s \<longrightarrow>
      end_transcription sid now active_sessions =
        ((200, Json \<lparr>end_session_id = sid, final_transcript = transcript s,
                      duration = total_seconds (now - start_time s),
                      total_entries = length (transcript s)\<rparr>),
         active_sessions(sid := None)) \<and>
      (\<forall>rs. (\<forall>r \<in> set rs. \<not> mints sid r) \<longrightarrow>
         (let tbl = run rs (snd (end_transcription sid now active_sessions)) in
            (\<forall>audio now' d. stream_transcription sid audio now' d tbl =
               ((404, ErrorBody ''Session not found''), tbl)) \<and>
            (\<forall>now'. end_transcription sid now' tbl =
               ((400, ErrorBody ''Session not found''), tbl)) \<and>
            (\<forall>now' polls. get_transcription_events sid ((tbl, now') # polls) = (200, [])))))"
proof (intro conjI impI allI)
  assume "active_sessions sid = None"
  then show "end_transcription sid now active_sessions =
      ((400, ErrorBody ''Session not found''), active_sessions)"
    by (rule end_unknown)
next
  fix s assume s: "active_sessions sid = Some s"
  then show ended: "end_transcription sid now active_sessions =
      ((200, Json \<lparr>end_session_id = sid, final_transcript = transcript s,
                    duration = total_seconds (now - start_time s),
                    total_entries = length (transcript s)\<rparr>),
       active_sessions(sid := None))"
    by (simp add: end_transcription_def end_transcription_session_def)
  fix rs assume rs: "\<forall>r \<in> set rs. \<not> mints sid r"
  have gone: "run rs (snd (end_transcription sid now active_sessions)) sid = None"
    using rs by (intro run_absent) (simp_all add: ended)
  show "let tbl = run rs (snd (end_transcription sid now active_sessions)) in
            (\<forall>audio now' d. stream_transcription sid audio now' d tbl =
               ((404, ErrorBody ''Session not found''), tbl)) \<and>
            (\<forall>now'. end_transcription sid now' tbl =
               ((400, ErrorBody ''Session not found''), tbl)) \<and>
            (\<forall>now' polls. get_transcription_events sid ((tbl, now') # polls) = (200, []))"
    using gone by (simp add: Let_def feed_unknown end_unknown get_transcription_events_def)
qed

lemma end_session_spec_example:
  "end_transcription ''zz'' 9 [''s1'' \<mapsto> demo_session_fed] =
     ((400, ErrorBody ''Session not found''), [''s1'' \<mapsto> demo_session_fed]) \<and>
   end_transcription ''s1'' 9 [''s1'' \<mapsto> demo_session_fed] =
     ((200, Json \<lparr>end_session_id = ''s1'', final_transcript = [demo_entry],
                   duration = 9 / 1000000, total_entries = 1\<rparr>), Map.empty) \<and>
   (let tbl = run [StartReq (Some demo_client) 10 ''s2'', FeedReq ''s1'' demo_audio 11 demo_draws]
                (snd (end_transcription ''s1'' 9 [''s1'' \<mapsto> demo_session_fed]))
    in stream_transcription ''s1'' demo_audio 12 demo_draws tbl =
         ((404, ErrorBody ''Session not found''), tbl) \<and>
       end_transcription ''s1'' 12 tbl = ((400, ErrorBody ''Session not found''), tbl) \<and>
       get_transcription_events ''s1'' [(tbl, 12)] = (200, []))"
proof -
  let ?T = "[''s1'' \<mapsto> demo_session_fed]"
  let ?rs = "[StartReq (Some demo_client) 10 ''s2'', FeedReq ''s1'' demo_audio 11 demo_draws]"
  have h1: "?T ''zz'' = None" by simp
  have h2: "?T ''s1'' = Some demo_session_fed" by simp
  have h3: "\<forall>r \<in> set ?rs. \<not> mints ''s1'' r" by simp
  have c1: "end_transcription ''zz'' 9 ?T = ((400, ErrorBody ''Session not found''), ?T)"
    using end_session_spec [of ?T "''zz''" 9] h1 by blast
  have c2: "end_transcription ''s1'' 9 ?T =
        ((200, Json \<lparr>end_session_id = ''s1'', final_transcript = transcript demo_session_fed,
                      duration = total_seconds (9 - start_time demo_session_fed),
                      total_entries = length (transcript demo_session_fed)\<rparr>),
         ?T(''s1'' := None))"
    using end_session_spec [of ?T "''s1''" 9] h2 by blast
  have c3: "let tbl = run ?rs (snd (end_transcription ''s1'' 9 ?T)) in
            (\<forall>audio now' d. stream_transcription ''s1'' audio now' d tbl =
               ((404, ErrorBody ''Session not found''), tbl)) \<and>
            (\<forall>now'. end_transcription ''s1'' now' tbl =
               ((400, ErrorBody ''Session not found''), tbl)) \<and>
            (\<forall>now' polls. get_transcription_events ''s1'' ((tbl, now') # polls) = (200, []))"
    using end_session_spec [of ?T "''s1''" 9] h2 h3 by blast
  have c2': "end_transcription ''s1'' 9 ?T =
     ((200, Json \<lparr>end_session_id = ''s1'', final_transcript = [demo_entry],
                   duration = 9 / 1000000, total_entries = 1\<rparr>), Map.empty)"
    using c2 by (simp add: demo_session_fed_def demo_session_def total_seconds_def)
  show ?thesis
    using c1 c2' c3 unfolding Let_def by blast
qed

text \<open>
  C2. The claim has every Feed, Observe and End call on the id of an ended session report
  "not found". Feed and End do (\<open>end_session_spec\<close>). Observe does not: on the id of
  the session just ended the route answers 200 and its stream ends at once without an
  event or an error.
\<close>

theorem observe_after_end_silent:
  "get_transcription_events ''s1''
     [(snd (end_transcription ''s1'' 9 [''s1'' \<mapsto> demo_session]), 10)] = (200, []) \<and>
   fst (stream_transcription ''s1'' demo_audio 10 demo_draws
          (snd (end_transcription ''s1'' 9 [''s1'' \<mapsto> demo_session]))) =
     (404, ErrorBody ''Session not found'') \<and>
   fst (end_transcription ''s1'' 10
          (snd (end_transcription ''s1'' 9 [''s1'' \<mapsto> demo_session]))) =
     (400, ErrorBody ''Session not found'')"
  by (simp add: get_transcription_events_def end_transcription_def end_transcription_session_def
      stream_transcription_def)

text \<open>
  C3, as the code has it. The stream is made of the polls up to, and without, the first
  poll that does not find the session. Each of these polls sends one payload with the
  session id, the last five entries of the transcript and the clock reading when the
  transcript is not empty, sends nothing when it is empty, and then sleeps one second.
\<close>

theorem observe_stream_spec:
  "generate sid polls =
     concat (map (\<lambda>(tbl, now).
                    case tbl sid of
                      None \<Rightarrow> []
                    | Some s \<Rightarrow>
                        (if transcript s \<noteq> []
                         then [Yield \<lparr>event_session_id = sid,
                                      event_transcript = last_n 5 (transcript s),
                                      event_timestamp = now\<rparr>]
                         else []) @ [Sleep 1])
                 (takeWhile (\<lambda>(tbl, now). tbl sid \<noteq> None) polls))"
proof (induction polls)
  case Nil
  show ?case by simp
next
  case (Cons p polls)
  obtain tbl now where p: "p = (tbl, now)" by (cases p)
  show ?case
  proof (cases "tbl sid")
    case None
    then show ?thesis by (simp add: p)
  next
    case (Some s)
    then show ?thesis using Cons.IH by (simp add: p)
  qed
qed

text \<open>
  C3 as stated fails: the session \<open>s1\<close> exists at the poll, its transcript is empty, and
  the poll sends no payload before it sleeps.
\<close>

theorem observe_empty_transcript_counterexample:
  "generate ''s1'' [([''s1'' \<mapsto> demo_session], 5)] = [Sleep 1]"
  by (simp add: demo_session_def)

section \<open>The invariant of the session table\<close>



















section \<open>Properties of the summarization client and of the text preparer\<close>

lemma try_models_all_fail:
  assumes "\<forall>i<length ms. \<exists>e. api (k + i) (ms ! i) = Inl e"
  shows "try_models api k ms le =
           (ms, Triple False (''OpenAI call failed across models. Last error: '' @
                  str_exception (if ms = [] then le
                                 else Some (projl (api (k + length ms - 1) (last ms))))) [])"
  using assms
proof (induction ms arbitrary: k le)
  case Nil
  show ?case by simp
next
  case (Cons m ms)
  from Cons.prems obtain e where e: "api k m = Inl e" by fastforce
  have rest: "\<forall>i<length ms. \<exists>e. api (Suc k + i) (ms ! i) = Inl e"
    using Cons.prems by fastforce
  show ?case
    using Cons.IH [OF rest, of "Some e"] e by simp
qed

lemma try_models_first_success:
  assumes "j < length ms"
    and "\<forall>i<j. \<exists>e. api (k + i) (ms ! i) = Inl e"
    and "api (k + j) (ms ! j) = Inr raw"
  shows "try_models api k ms le = (take (Suc j) ms, Triple True (py_strip raw) (ms ! j))"
  using assms
proof (induction ms arbitrary: k j le)
  case Nil
  then show ?case by simp
next
  case (Cons m ms)
  show ?case
  proof (cases j)
    case 0
    then show ?thesis using Cons.prems by simp
  next
    case (Suc j')
    from Cons.prems(2) Suc obtain e where e: "api k m = Inl e" by fastforce
    have a: "j' < length ms" using Cons.prems(1) Suc by simp
    have b: "\<forall>i<j'. \<exists>e. api (Suc k + i) (ms ! i) = Inl e"
      using Cons.prems(2) Suc by fastforce
    have c: "api (Suc k + j') (ms ! j') = Inr raw"
      using Cons.prems(3) Suc by simp
    show ?thesis
      using Cons.IH [OF a b c, of "Some e"] e Suc by simp
  qed
qed

lemma try_models_cases:
  "(\<exists>j<length ms. (\<forall>i<j. \<exists>e. api (k + i) (ms ! i) = Inl e) \<and>
       (\<exists>raw. api (k + j) (ms ! j) = Inr raw)) \<or>
   (\<forall>i<length ms. \<exists>e. api (k + i) (ms ! i) = Inl e)"
proof (induction ms arbitrary: k)
  case Nil
  show ?case by simp
next
  case (Cons m ms)
  show ?case
  proof (cases "api k m")
    case (Inr raw)
    then have "0 < length (m # ms) \<and> (\<forall>i<0. \<exists>e. api (k + i) ((m # ms) ! i) = Inl e) \<and>
       (\<exists>raw. api (k + 0) ((m # ms) ! 0) = Inr raw)"
      by simp
    then show ?thesis by blast
  next
    case (Inl e)
    from Cons.IH [of "Suc k"] show ?thesis
    proof
      assume "\<exists>j<length ms. (\<forall>i<j. \<exists>e. api (Suc k + i) (ms ! i) = Inl e) \<and>
         (\<exists>raw. api (Suc k + j) (ms ! j) = Inr raw)"
      then obtain j raw where j: "j < length ms"
        and f: "\<forall>i<j. \<exists>e. api (Suc k + i) (ms ! i) = Inl e"
        and r: "api (Suc k + j) (ms ! j) = Inr raw" by blast
      have "\<forall>i<Suc j. \<exists>e. api (k + i) ((m # ms) ! i) = Inl e"
        unfolding All_less_Suc2 using Inl f by simp
      moreover have "api (k + Suc j) ((m # ms) ! Suc j) = Inr raw" using r by simp
      moreover have "Suc j < length (m # ms)" using j by simp
      ultimately show ?thesis by blast
    next
      assume f: "\<forall>i<length ms. \<exists>e. api (Suc k + i) (ms ! i) = Inl e"
      have "\<forall>i<Suc (length ms). \<exists>e. api (k + i) ((m # ms) ! i) = Inl e"
        unfolding All_less_Suc2 using Inl f by simp
      then show ?thesis by simp
    qed
  qed
qed

text \<open>
  C7, as the code has it. Without an API credential the call fails at once with empty
  text and asks no model. With a credential and a client at hand (the modern client built
  without an exception, or the legacy module present) it makes one pass over the candidate
  list, the operator's override first when there is one and then gpt-5, gpt-5-mini and
  gpt-4o-mini: it asks the entries in order, stops at the first that succeeds and returns
  success with the stripped text and that model; when every entry fails it returns failure
  with the text of the last exception. An override equal to a fixed name stands twice in
  the list. When the modern client cannot be built the call fails with a client error and
  asks no model.
\<close>

theorem call_openai_summary_spec:
  "(py_strip (OPENAI_API_KEY env) = [] \<longrightarrow> call_openai_summary env = ([], Triple False [] [])) \<and>
   (\<forall>e. py_strip (OPENAI_API_KEY env) \<noteq> [] \<and> openai_client_mode env = Modern \<and>
        client_constructor_error env = Some e \<longrightarrow>
        call_openai_summary env = ([], Triple False (''OpenAI client error: '' @ e) [])) \<and>
   (py_strip (OPENAI_API_KEY env) \<noteq> [] \<and>
    (openai_client_mode env = Modern \<and> client_constructor_error env = None \<or>
     openai_client_mode env = Legacy \<and> legacy_module_present env) \<longrightarrow>
      (let ms = candidate_models env; api = chat_completion env in
         ms = (if py_strip (OPENAI_MODEL env) \<noteq> [] then [py_strip (OPENAI_MODEL env)] else []) @
              [''gpt-5'', ''gpt-5-mini'', ''gpt-4o-mini''] \<and>
         ((\<exists>j<length ms. (\<forall>i<j. \<exists>e. api i (ms ! i) = Inl e) \<and>
             (\<exists>raw. api j (ms ! j) = Inr raw \<and>
                call_openai_summary env =
                  (take (Suc j) ms, Triple True (py_strip raw) (ms ! j)))) \<or>
          ((\<forall>i<length ms. \<exists>e. api i (ms ! i) = Inl e) \<and>
           (\<exists>e. api (length ms - 1) (last ms) = Inl e \<and>
              call_openai_summary env =
                (ms, Triple False (''OpenAI call failed across models. Last error: '' @ e) []))))))"
proof (intro conjI impI allI)
  assume "py_strip (OPENAI_API_KEY env) = []"
  then show "call_openai_summary env = ([], Triple False [] [])"
    by (simp add: call_openai_summary_def)
next
  fix e
  assume "py_strip (OPENAI_API_KEY env) \<noteq> [] \<and> openai_client_mode env = Modern \<and>
        client_constructor_error env = Some e"
  then show "call_openai_summary env = ([], Triple False (''OpenAI client error: '' @ e) [])"
    by (simp add: call_openai_summary_def)
next
  assume a: "py_strip (OPENAI_API_KEY env) \<noteq> [] \<and>
    (openai_client_mode env = Modern \<and> client_constructor_error env = None \<or>
     openai_client_mode env = Legacy \<and> legacy_module_present env)"
  define ms where "ms = candidate_models env"
  define api where "api = chat_completion env"
  have run: "call_openai_summary env = try_models api 0 ms None"
    using a by (auto simp: call_openai_summary_def ms_def api_def)
  have ms: "ms = (if py_strip (OPENAI_MODEL env) \<noteq> [] then [py_strip (OPENAI_MODEL env)] else []) @
              [''gpt-5'', ''gpt-5-mini'', ''gpt-4o-mini'']"
    by (simp add: ms_def candidate_models_def fixed_models_def)
  then have ne: "ms \<noteq> []" by auto
  have main: "(\<exists>j<length ms. (\<forall>i<j. \<exists>e. api i (ms ! i) = Inl e) \<and>
             (\<exists>raw. api j (ms ! j) = Inr raw \<and>
                call_openai_summary env =
                  (take (Suc j) ms, Triple True (py_strip raw) (ms ! j)))) \<or>
          ((\<forall>i<length ms. \<exists>e. api i (ms ! i) = Inl e) \<and>
           (\<exists>e. api (length ms - 1) (last ms) = Inl e \<and>
              call_openai_summary env =
                (ms, Triple False (''OpenAI call failed across models. Last error: '' @ e) [])))"
    using try_models_cases [of ms api 0]
  proof
    assume "\<exists>j<length ms. (\<forall>i<j. \<exists>e. api (0 + i) (ms ! i) = Inl e) \<and>
       (\<exists>raw. api (0 + j) (ms ! j) = Inr raw)"
    then obtain j raw where j: "j < length ms" "\<forall>i<j. \<exists>e. api (0 + i) (ms ! i) = Inl e"
      "api (0 + j) (ms ! j) = Inr raw" by blast
    from try_models_first_success [OF j, of None]
    have "call_openai_summary env = (take (Suc j) ms, Triple True (py_strip raw) (ms ! j))"
      by (simp only: run)
    with j have "j < length ms \<and> (\<forall>i<j. \<exists>e. api i (ms ! i) = Inl e) \<and>
             (\<exists>raw. api j (ms ! j) = Inr raw \<and>
                call_openai_summary env =
                  (take (Suc j) ms, Triple True (py_strip raw) (ms ! j)))"
      by simp
    then show ?thesis by blast
  next
    assume f: "\<forall>i<length ms. \<exists>e. api (0 + i) (ms ! i) = Inl e"
    have lt: "length ms - 1 < length ms" using ne by simp
    with f obtain e where "api (0 + (length ms - 1)) (ms ! (length ms - 1)) = Inl e"
      by blast
    then have e: "api (length ms - 1) (last ms) = Inl e"
      using ne by (simp add: last_conv_nth)
    from try_models_all_fail [OF f, of None]
    have "call_openai_summary env =
        (ms, Triple False (''OpenAI call failed across models. Last error: '' @ e) [])"
      using ne e by (simp add: run str_exception_def)
    with e f have "(\<forall>i<length ms. \<exists>e. api i (ms ! i) = Inl e) \<and>
           (\<exists>e. api (length ms - 1) (last ms) = Inl e \<and>
              call_openai_summary env =
                (ms, Triple False (''OpenAI call failed across models. Last error: '' @ e) []))"
      by simp
    then show ?thesis by (rule disjI2)
  qed
  show "let ms = candidate_models env; api = chat_completion env in
         ms = (if py_strip (OPENAI_MODEL env) \<noteq> [] then [py_strip (OPENAI_MODEL env)] else []) @
              [''gpt-5'', ''gpt-5-mini'', ''gpt-4o-mini''] \<and>
         ((\<exists>j<length ms. (\<forall>i<j. \<exists>e. api i (ms ! i) = Inl e) \<and>
             (\<exists>raw. api j (ms ! j) = Inr raw \<and>
                call_openai_summary env =
                  (take (Suc j) ms, Triple True (py_strip raw) (ms ! j)))) \<or>
          ((\<forall>i<length ms. \<exists>e. api i (ms ! i) = Inl e) \<and>
           (\<exists>e. api (length ms - 1) (last ms) = Inl e \<and>
              call_openai_summary env =
                (ms, Triple False (''OpenAI call failed across models. Last error: '' @ e) []))))"
    unfolding Let_def ms_def [symmetric] api_def [symmetric]
    using ms main by (rule conjI)
qed

text \<open>
  C7 as stated fails: with the override set to gpt-5 and every request failing, the model
  gpt-5 is asked twice.
\<close>

theorem override_tried_twice_counterexample:
  "fst (call_openai_summary demo_env_dup) = [''gpt-5'', ''gpt-5'', ''gpt-5-mini'', ''gpt-4o-mini'']"
  by code_simp


theorem call_openai_summary_spec_witness:
  "py_strip (OPENAI_API_KEY demo_env_unset) = [] \<and>
   call_openai_summary demo_env_unset = ([], Triple False [] []) \<and>
   py_strip (OPENAI_API_KEY demo_env) \<noteq> [] \<and>
   openai_client_mode demo_env = Modern \<and> client_constructor_error demo_env = None \<and>
   call_openai_summary demo_env =
     ([''my-model'', ''gpt-5''], Triple True ''Summary text.'' ''gpt-5'')"
proof -
  have k0: "py_strip (OPENAI_API_KEY demo_env_unset) = []" by code_simp
  have c0: "call_openai_summary demo_env_unset = ([], Triple False [] [])"
    using call_openai_summary_spec [of demo_env_unset] k0 by (elim conjE) (rule mp)
  have k1: "py_strip (OPENAI_API_KEY demo_env) \<noteq> []" by code_simp
  have m: "openai_client_mode demo_env = Modern" "client_constructor_error demo_env = None"
    by (simp_all add: demo_env_def)
  have ms: "candidate_models demo_env = [''my-model'', ''gpt-5'', ''gpt-5-mini'', ''gpt-4o-mini'']"
    by code_simp
  have api: "chat_completion demo_env k model =
      (if k = 0 then Inl ''model_not_found'' else Inr '' Summary text. '')" for k model
    by (simp add: demo_env_def)
  have st: "py_strip '' Summary text. '' = ''Summary text.''" by code_simp
  define out where "out = call_openai_summary demo_env"
  define MS where "MS = [''my-model'', ''gpt-5'', ''gpt-5-mini'', ''gpt-4o-mini'']"
  define api where "api = chat_completion demo_env"
  have api0: "api 0 model = Inl ''model_not_found''" for model
    by (simp add: api_def demo_env_def)
  have api1: "0 < k \<Longrightarrow> api k model = Inr '' Summary text. ''" for k model
    by (simp add: api_def demo_env_def)
  have "let ms = candidate_models demo_env; api = chat_completion demo_env in
         ms = (if py_strip (OPENAI_MODEL demo_env) \<noteq> [] then [py_strip (OPENAI_MODEL demo_env)] else []) @
              [''gpt-5'', ''gpt-5-mini'', ''gpt-4o-mini''] \<and>
         ((\<exists>j<length ms. (\<forall>i<j. \<exists>e. api i (ms ! i) = Inl e) \<and>
             (\<exists>raw. api j (ms ! j) = Inr raw \<and>
                call_openai_summary demo_env =
                  (take (Suc j) ms, Triple True (py_strip raw) (ms ! j)))) \<or>
          ((\<forall>i<length ms. \<exists>e. api i (ms ! i) = Inl e) \<and>
           (\<exists>e. api (length ms - 1) (last ms) = Inl e \<and>
              call_openai_summary demo_env =
                (ms, Triple False (''OpenAI call failed across models. Last error: '' @ e) []))))"
    using call_openai_summary_spec [of demo_env] k1 m by (elim conjE) (rule mp, assumption, simp)
  then have d: "(\<exists>j<length MS. (\<forall>i<j. \<exists>e. api i (MS ! i) = Inl e) \<and>
             (\<exists>raw. api j (MS ! j) = Inr raw \<and>
                out = (take (Suc j) MS, Triple True (py_strip raw) (MS ! j)))) \<or>
          ((\<forall>i<length MS. \<exists>e. api i (MS ! i) = Inl e) \<and>
           (\<exists>e. api (length MS - 1) (last MS) = Inl e \<and>
              out = (MS, Triple False (''OpenAI call failed across models. Last error: '' @ e) [])))"
    unfolding Let_def ms MS_def [symmetric] api_def [symmetric] out_def [symmetric]
    by (rule conjunct2)
  have "out = ([''my-model'', ''gpt-5''], Triple True ''Summary text.'' ''gpt-5'')"
    using d
  proof
    assume "\<exists>j<length MS. (\<forall>i<j. \<exists>e. api i (MS ! i) = Inl e) \<and>
             (\<exists>raw. api j (MS ! j) = Inr raw \<and>
                out = (take (Suc j) MS, Triple True (py_strip raw) (MS ! j)))"
    then obtain j raw where f: "\<forall>i<j. \<exists>e. api i (MS ! i) = Inl e"
      and r: "api j (MS ! j) = Inr raw"
      and o: "out = (take (Suc j) MS, Triple True (py_strip raw) (MS ! j))"
      by blast
    have j0: "j \<noteq> 0"
    proof
      assume "j = 0"
      with r api0 [of "MS ! 0"] show False by simp
    qed
    have "\<not> 1 < j"
    proof
      assume "1 < j"
      with f obtain e where "api 1 (MS ! 1) = Inl e" by blast
      with api1 [of 1 "MS ! 1"] show False by simp
    qed
    with j0 have j1: "j = 1" by simp
    with r api1 [of 1 "MS ! 1"] have "raw = '' Summary text. ''" by simp
    with o j1 show ?thesis by (simp add: MS_def st)
  next
    assume "(\<forall>i<length MS. \<exists>e. api i (MS ! i) = Inl e) \<and>
           (\<exists>e. api (length MS - 1) (last MS) = Inl e \<and>
              out = (MS, Triple False (''OpenAI call failed across models. Last error: '' @ e) []))"
    then have "\<forall>i<length MS. \<exists>e. api i (MS ! i) = Inl e" by (rule conjunct1)
    moreover have "1 < length MS" by (simp add: MS_def)
    ultimately obtain e where "api 1 (MS ! 1) = Inl e" by blast
    with api1 [of 1 "MS ! 1"] show ?thesis by simp
  qed
  then show ?thesis using k0 c0 k1 m by (simp add: out_def)
qed

lemma truncate_text_within: "int (length text) \<le> max_chars \<Longrightarrow> truncate_text text max_chars = text"
  by (simp add: truncate_text_def)

lemma truncate_text_over:
  assumes "1000 \<le> max_chars" and "max_chars < int (length text)"
  shows "truncate_text text max_chars =
           take (nat (max_chars - 1000)) text @ truncation_marker @ drop (length text - 1000) text"
    and "length (truncate_text text max_chars) = nat max_chars + 21"
  using assms
  by (auto simp: truncate_text_def slice_to_def slice_from_def Let_def truncation_marker_def)

text \<open>
  C1. The claim bounds the length of a truncated text by the budget. The code keeps
  \<open>max_chars - 1000\<close> characters of the head and 1000 of the tail and adds the marker of
  21 characters on top: for a text of 24001 characters and the budget 24000 that
  \<open>/summarize\<close> passes, the result has 24021 characters.
\<close>

theorem truncate_text_exceeds_budget:
  "length (truncate_text (replicate 24001 CHR ''a'') 24000) = 24021"
  using truncate_text_over(2) [of 24000 "replicate 24001 CHR ''a''"] by simp

section \<open>Properties of the fallback summarizer\<close>

lemma split_lf_ne [simp]: "split_lf s \<noteq> []"
  by (induction s) (auto split: list.splits)

lemma split_lf_nolf: "LF \<notin> set s \<Longrightarrow> split_lf s = [s]"
  by (induction s) auto

lemma split_lf_append: "LF \<notin> set a \<Longrightarrow> split_lf (a @ LF # b) = a # split_lf b"
  by (induction a) (auto split: list.splits)

lemma join_Cons: "ys \<noteq> [] \<Longrightarrow> join s (x # ys) = x @ s @ join s ys"
  by (cases ys) auto

lemma join_append: "xs \<noteq> [] \<Longrightarrow> ys \<noteq> [] \<Longrightarrow> join s (xs @ ys) = join s xs @ s @ join s ys"
proof (induction xs)
  case Nil
  then show ?case by simp
next
  case (Cons x xs)
  show ?case
  proof (cases "xs = []")
    case True
    then show ?thesis using Cons.prems by (simp add: join_Cons)
  next
    case False
    then show ?thesis using Cons by (simp add: join_Cons)
  qed
qed

lemma split_lf_join:
  "ls \<noteq> [] \<Longrightarrow> \<forall>l \<in> set ls. LF \<notin> set l \<Longrightarrow> split_lf (join [LF] ls) = ls"
proof (induction ls)
  case Nil
  then show ?case by simp
next
  case (Cons l ls)
  show ?case
  proof (cases "ls = []")
    case True
    then show ?thesis using Cons.prems by (simp add: split_lf_nolf)
  next
    case False
    then show ?thesis using Cons by (simp add: join_Cons split_lf_append)
  qed
qed

lemma blank_not_LF: "blank c \<Longrightarrow> c \<noteq> LF"
  by (auto simp: blank_def LF_def)

lemma blank_isspace: "blank c \<Longrightarrow> py_isspace c"
  by (auto simp: blank_def py_isspace_def)

lemma LF_isspace: "py_isspace LF"
  by (simp add: py_isspace_def LF_def)


lemma render_nolf:
  "item_ok it \<Longrightarrow> list_all blank sp \<Longrightarrow> LF \<notin> set (render sp it)"
  by (cases it) (auto simp: good_def list_all_iff dest: blank_not_LF)

lemma norm_render:
  assumes "item_ok it" and "list_all blank sp"
  shows "\<not> whitespace_only (render sp it)"
proof (cases it)
  case Blank
  then show ?thesis by (simp add: whitespace_only_def)
next
  case (Line b)
  with assms(1) have "b \<noteq> []" "\<not> blank (hd b)" by (simp_all add: good_def)
  then have "\<not> list_all blank b" by (cases b) auto
  then show ?thesis using Line by (simp add: whitespace_only_def)
next
  case (Raw b)
  with assms(1) have "b \<noteq> []" "\<not> blank (hd b)" by (simp_all add: good_def)
  then have "\<not> list_all blank b" by (cases b) auto
  then show ?thesis using Raw by (simp add: whitespace_only_def)
qed

lemma dropWhile_blank_good: "good b \<Longrightarrow> dropWhile blank b = b"
  by (simp add: good_def dropWhile_eq_self_iff)

lemma takeWhile_blank_good: "good b \<Longrightarrow> takeWhile blank b = []"
  by (simp add: good_def takeWhile_eq_Nil_iff)

lemma dropWhile_blank_sp: "list_all blank sp \<Longrightarrow> dropWhile blank (sp @ b) = dropWhile blank b"
  by (induction sp) auto

lemma takeWhile_blank_sp: "list_all blank sp \<Longrightarrow> takeWhile blank (sp @ b) = sp @ takeWhile blank b"
  by (induction sp) auto

lemma good_nonblank: "good b \<Longrightarrow> \<exists>x \<in> set b. \<not> blank x"
  by (cases b) (auto simp: good_def)

lemma indents_render:
  assumes "list_all blank sp" and "\<forall>it \<in> set doc. item_ok it"
  shows "map (takeWhile blank) (filter (\<lambda>l. dropWhile blank l \<noteq> []) (map (render sp) doc)) =
           concat (map (indent_of sp) doc)"
  using assms(2)
proof (induction doc)
  case Nil
  show ?case by simp
next
  case (Cons it doc)
  then have ok: "item_ok it" and IH: "map (takeWhile blank)
      (filter (\<lambda>l. dropWhile blank l \<noteq> []) (map (render sp) doc)) = concat (map (indent_of sp) doc)"
    by simp_all
  show ?case
  proof (cases it)
    case Blank
    then show ?thesis using IH by simp
  next
    case (Line b)
    with ok have g: "good b" by simp
    then have "b \<noteq> []" by (simp add: good_def)
    then show ?thesis
      using Line IH g assms(1) good_nonblank [OF g]
      by (auto simp: takeWhile_blank_sp takeWhile_blank_good)
  next
    case (Raw b)
    with ok have g: "good b" by simp
    then have "b \<noteq> []" by (simp add: good_def)
    then show ?thesis
      using Raw IH g good_nonblank [OF g] by (auto simp: takeWhile_blank_good)
  qed
qed

lemma narrow_empty: "foldl narrow_margin (Some []) xs = Some []"
  by (induction xs) (simp_all add: narrow_margin_def)

lemma narrow_sp:
  assumes "sp \<noteq> []" and "\<forall>x \<in> set xs. x = sp \<or> x = []"
  shows "foldl narrow_margin (Some sp) xs = Some (if [] \<in> set xs then [] else sp)"
  using assms(2)
proof (induction xs)
  case Nil
  show ?case by simp
next
  case (Cons x xs)
  then have x: "x = sp \<or> x = []" and rest: "\<forall>x \<in> set xs. x = sp \<or> x = []" by simp_all
  from x show ?case
  proof
    assume "x = sp"
    then show ?thesis using Cons.IH [OF rest] assms(1) by (auto simp: narrow_margin_def)
  next
    assume "x = []"
    moreover have "narrow_margin (Some sp) [] = Some []"
      using assms(1) by (simp add: narrow_margin_def)
    ultimately show ?thesis by (simp add: narrow_empty)
  qed
qed

lemma indent_of_cases: "x \<in> set (concat (map (indent_of sp) doc)) \<Longrightarrow> x = sp \<or> x = []"
proof (induction doc)
  case Nil
  then show ?case by simp
next
  case (Cons it doc)
  then show ?case by (cases it) auto
qed

lemma indent_of_raw:
  "sp \<noteq> [] \<Longrightarrow> [] \<in> set (concat (map (indent_of sp) doc)) \<longleftrightarrow> (\<exists>it \<in> set doc. is_raw it)"
proof (induction doc)
  case Nil
  show ?case by simp
next
  case (Cons it doc)
  then show ?case by (cases it) auto
qed

lemma remove_margin_render:
  assumes "sp \<noteq> []" and "\<not> is_raw it"
  shows "remove_margin sp (render sp it) = render [] it"
  using assms by (cases it) (simp_all add: remove_margin_def)

lemma py_strip_core:
  assumes "list_all py_isspace ws" and "list_all py_isspace ws'"
    and "Y \<noteq> []" and "\<not> py_isspace (hd Y)" and "\<not> py_isspace (last Y)"
  shows "py_strip (ws @ Y @ ws') = Y"
proof -
  have a: "dropWhile py_isspace (ws @ Y @ ws') = Y @ ws'"
  proof -
    have "dropWhile py_isspace (ws @ Y @ ws') = dropWhile py_isspace (Y @ ws')"
      using assms(1) by (induction ws) auto
    also have "\<dots> = Y @ ws'"
      using assms(3,4) by (cases Y) auto
    finally show ?thesis .
  qed
  have "dropWhile py_isspace (rev ws' @ rev Y) = dropWhile py_isspace (rev Y)"
    using assms(2) by (induction ws' rule: rev_induct) (auto simp: list_all_iff)
  also have "\<dots> = rev Y"
    using assms(3,5) by (simp add: dropWhile_eq_self_iff hd_rev)
  finally have b: "dropWhile py_isspace (rev (Y @ ws')) = rev Y" by simp
  show ?thesis
    unfolding py_strip_def a b by simp
qed


lemma join_snoc: "xs \<noteq> [] \<Longrightarrow> join s (xs @ [x]) = join s xs @ s @ x"
  by (simp add: join_append)

lemma join_ne: "ls \<noteq> [] \<Longrightarrow> last ls \<noteq> [] \<Longrightarrow> join s ls \<noteq> []"
proof (cases ls rule: rev_cases)
  case Nil
  assume "ls \<noteq> []"
  with Nil show ?thesis by simp
next
  case (snoc xs x)
  assume "last ls \<noteq> []"
  with snoc have x: "x \<noteq> []" by simp
  show ?thesis
  proof (cases "xs = []")
    case True
    then show ?thesis using snoc x by simp
  next
    case False
    then show ?thesis using snoc x by (simp add: join_snoc)
  qed
qed

lemma last_join: "ls \<noteq> [] \<Longrightarrow> last ls \<noteq> [] \<Longrightarrow> last (join s ls) = last (last ls)"
proof (cases ls rule: rev_cases)
  case Nil
  assume "ls \<noteq> []"
  with Nil show ?thesis by simp
next
  case (snoc xs x)
  assume "last ls \<noteq> []"
  with snoc have x: "x \<noteq> []" by simp
  show ?thesis
  proof (cases "xs = []")
    case True
    then show ?thesis using snoc by simp
  next
    case False
    then show ?thesis using snoc x by (simp add: join_snoc)
  qed
qed

lemma dedent_doc:
  assumes sp: "sp \<noteq> []" "list_all blank sp"
    and doc: "doc = Line h0 # mid @ [Line e]"
    and ok: "\<forall>it \<in> set doc. item_ok it"
    and first: "\<not> py_isspace (hd h0)"
    and lst: "\<not> py_isspace (last e)"
    and ind: "ind = (if \<exists>it \<in> set doc. is_raw it then sp else [])"
  shows "py_strip (dedent (join [LF] ([] # map (render sp) doc @ [sp]))) =
           drop (length ind) (join [LF] (map (render ind) doc))"
proof -
  define L0 where "L0 = [] # map (render sp) doc @ [sp]"
  define L1 where "L1 = [] # map (render sp) doc @ [[]]"
  have h0: "h0 \<noteq> []" and e: "e \<noteq> []"
    using ok doc by (simp_all add: good_def)
  have sp_nolf: "LF \<notin> set sp"
    using sp(2) by (auto simp: list_all_iff dest: blank_not_LF)
  have "\<forall>l \<in> set L0. LF \<notin> set l"
    using ok sp(2) sp_nolf by (auto simp: L0_def render_nolf)
  then have split: "split_lf (join [LF] L0) = L0"
    by (intro split_lf_join) (simp_all add: L0_def)
  have norm_doc: "map (\<lambda>l. if whitespace_only l then [] else l) (map (render sp) doc) =
      map (render sp) doc"
    using ok sp(2) by (simp add: norm_render)
  have norm: "map (\<lambda>l. if whitespace_only l then [] else l) L0 = L1"
    using sp norm_doc by (simp add: L0_def L1_def whitespace_only_def)
  have "filter (\<lambda>l. dropWhile blank l \<noteq> []) L1 =
      filter (\<lambda>l. dropWhile blank l \<noteq> []) (map (render sp) doc)"
    unfolding L1_def by simp
  moreover have "concat (map (indent_of sp) doc) =
      sp # concat (map (indent_of sp) (mid @ [Line e]))"
    unfolding doc by simp
  ultimately have indents: "map (takeWhile blank) (filter (\<lambda>l. dropWhile blank l \<noteq> []) L1) =
      sp # concat (map (indent_of sp) (mid @ [Line e]))"
    using indents_render [OF sp(2) ok] by (simp only:)
  have cases_ind: "\<forall>x \<in> set (concat (map (indent_of sp) (mid @ [Line e]))). x = sp \<or> x = []"
    using indent_of_cases by blast
  have raw_iff: "[] \<in> set (concat (map (indent_of sp) (mid @ [Line e]))) \<longleftrightarrow>
      (\<exists>it \<in> set doc. is_raw it)"
    using indent_of_raw [OF sp(1), of "mid @ [Line e]"] by (simp add: doc)
  have margin: "foldl narrow_margin None (sp # concat (map (indent_of sp) (mid @ [Line e]))) =
      Some (if \<exists>it \<in> set doc. is_raw it then [] else sp)"
    using narrow_sp [OF sp(1) cases_ind] raw_iff by (simp add: narrow_margin_def)
  have dedent_eq: "dedent (join [LF] L0) =
      (if \<exists>it \<in> set doc. is_raw it then join [LF] L1
       else join [LF] (map (remove_margin sp) L1))"
    unfolding dedent_def split norm Let_def indents margin using sp(1) by simp
  have docne: "map (render i) doc \<noteq> []" for i by (simp add: doc)
  have wrap: "join [LF] ([] # map (render i) doc @ [[]]) =
      LF # join [LF] (map (render i) doc) @ [LF]" for i
    using docne [of i] by (simp add: join_Cons join_append)
  have body: "join [LF] (map (render i) doc) =
      i @ h0 @ LF # join [LF] (map (render i) (mid @ [Line e]))" for i
    by (simp add: doc join_Cons)
  define Y where "Y i = h0 @ LF # join [LF] (map (render i) (mid @ [Line e]))" for i
  have Yne: "Y i \<noteq> []" for i using h0 by (simp add: Y_def)
  have Yhd: "hd (Y i) = hd h0" for i using h0 by (simp add: Y_def)
  have "last (join [LF] (map (render i) (mid @ [Line e]))) = last (i @ e)" for i
    using e by (subst last_join) simp_all
  moreover have "join [LF] (map (render i) (mid @ [Line e])) \<noteq> []" for i
    using e by (intro join_ne) simp_all
  ultimately have Ylast: "last (Y i) = last e" for i
    using e by (simp add: Y_def)
  have strip: "py_strip (ws @ Y i @ [LF]) = Y i" if "list_all py_isspace ws" for ws i
    using that Yne [of i] first lst
    by (intro py_strip_core) (simp_all add: LF_isspace Yhd Ylast)
  show ?thesis
  proof (cases "\<exists>it \<in> set doc. is_raw it")
    case True
    then have i: "ind = sp" by (simp add: ind)
    have "dedent (join [LF] L0) = join [LF] L1" using True by (simp add: dedent_eq)
    also have "\<dots> = (LF # sp) @ Y sp @ [LF]"
      by (simp add: L1_def wrap body Y_def)
    finally have d: "dedent (join [LF] L0) = (LF # sp) @ Y sp @ [LF]" .
    have "list_all py_isspace (LF # sp)"
      using sp(2) by (auto simp: list_all_iff LF_isspace blank_isspace)
    then have "py_strip (dedent (join [LF] L0)) = Y sp"
      unfolding d by (rule strip)
    then show ?thesis by (simp add: i L0_def body Y_def)
  next
    case False
    then have i: "ind = []" by (simp add: ind)
    from False have nr: "\<forall>it \<in> set doc. \<not> is_raw it" by blast
    have "map (remove_margin sp) (map (render sp) doc) = map (render []) doc"
      using nr sp(1) by (simp add: remove_margin_render)
    then have "map (remove_margin sp) L1 = [] # map (render []) doc @ [[]]"
      using sp(1) by (simp add: L1_def remove_margin_def)
    then have "dedent (join [LF] L0) = [LF] @ Y [] @ [LF]"
      using False by (simp add: dedent_eq wrap body Y_def)
    then have "py_strip (dedent (join [LF] L0)) = Y []"
      using strip [of "[LF]" "[]"] by (simp add: LF_isspace)
    then show ?thesis by (simp add: i L0_def body Y_def)
  qed
qed


lemma section_doc_ne [simp]: "section_doc hs \<noteq> []"
  by (cases hs) simp_all

lemma render_raw_map: "map (render ind) (map (\<lambda>x. Raw (f x)) hs) = map f hs"
  by (induction hs) simp_all

lemma section_join: "join [LF] (map (render ind) (section_doc hs)) = ind @ section_text hs"
proof (cases hs)
  case Nil
  then show ?thesis by (simp add: section_text_def)
next
  case (Cons h t)
  show ?thesis
  proof (cases "t = []")
    case True
    then show ?thesis using Cons by (simp add: section_text_def)
  next
    case False
    then have "join [LF] (map (\<lambda>d. ''- '' @ d) (h # t)) =
        ''- '' @ h @ [LF] @ join [LF] (map (\<lambda>d. ''- '' @ d) t)"
      by (simp add: join_Cons)
    then show ?thesis
      using Cons False by (simp add: section_text_def comp_def join_Cons Let_def)
  qed
qed

lemma summary_doc_join:
  "join [LF] (map (render ind) (summary_doc n d m a p)) =
     ind @ summary_body ind n (section_text d) (section_text m) (section_text a) (section_text p)"
  by (simp add: summary_doc_def summary_body_def join_append join_Cons section_join)

lemma summary_template_join:
  "summary_template n (section_text d) (section_text m) (section_text a) (section_text p) =
     join [LF] ([] # map (render indent8) (summary_doc n d m a p) @ [indent8])"
proof -
  have ne: "map (render indent8) (summary_doc n d m a p) \<noteq> []"
    by (simp add: summary_doc_def)
  have "join [LF] ([] # map (render indent8) (summary_doc n d m a p) @ [indent8]) =
      LF # join [LF] (map (render indent8) (summary_doc n d m a p)) @ LF # indent8"
    using ne by (simp add: join_Cons join_snoc)
  then show ?thesis
    by (simp add: summary_doc_join summary_template_def)
qed

lemma digit_char_range: "digit_char k \<in> set ''0123456789''"
proof -
  have "k mod 10 < length ''0123456789''" by simp
  then have "''0123456789'' ! (k mod 10) \<in> set ''0123456789''" by (rule nth_mem)
  then show ?thesis by simp
qed

lemma str_nat_chars: "set (str_nat k) \<subseteq> set ''0123456789''"
proof (induction k rule: str_nat.induct)
  case (1 k)
  show ?case
  proof (cases "k < 10")
    case True
    then have "str_nat k = [digit_char k]" by (subst str_nat.simps) simp
    then show ?thesis using digit_char_range [of k] by simp
  next
    case False
    then have "str_nat k = str_nat (k div 10) @ [digit_char k]" by (subst str_nat.simps) simp
    then show ?thesis using 1 False digit_char_range [of k] by simp
  qed
qed

lemma str_nat_nolf: "LF \<notin> set (str_nat k)"
proof -
  have "LF \<notin> set ''0123456789''" by (simp add: LF_def)
  with str_nat_chars [of k] show ?thesis by blast
qed

lemma str_int_nolf: "LF \<notin> set (str_int i)"
proof (cases "i < 0")
  case True
  then have "str_int i = CHR ''-'' # str_nat (nat (- i))" by (simp add: str_int_def)
  moreover have "LF \<noteq> CHR ''-''" by (simp add: LF_def)
  ultimately show ?thesis using str_nat_nolf [of "nat (- i)"] by simp
next
  case False
  then have "str_int i = str_nat (nat i)" by (simp add: str_int_def)
  then show ?thesis using str_nat_nolf [of "nat i"] by simp
qed

lemma good_dash: "LF \<notin> set h \<Longrightarrow> good (CHR ''-'' # CHR '' '' # h)"
  by (simp add: good_def blank_def LF_def)

lemma good_append: "good x \<Longrightarrow> LF \<notin> set y \<Longrightarrow> good (x @ y)"
  by (cases x) (simp_all add: good_def)

lemma good_literals:
  "good ''Placeholder health summary (no API key detected). Processed ''"
  "good ''High-level overview:''"
  "good ''- The records include multiple visits and findings. This is only a rough, automated draft.''"
  "good ''Possible diagnoses/assessments noted:''"
  "good ''Possible medications mentioned:''"
  "good ''Possible allergies:''"
  "good ''Possible procedures:''"
  "good ''Next steps:''"
  "good ''- Provide an OPENAI_API_KEY to enable an AI-generated, plain-language health history summary.''"
  "good ''- Verify details directly in the source PDFs before using clinically.''"
  "good ''- (none detected in sample)''"
  "LF \<notin> set '' PDF file(s).''"
  by (simp_all add: good_def blank_def LF_def)

lemma section_doc_ok: "\<forall>h \<in> set hs. LF \<notin> set h \<Longrightarrow> \<forall>it \<in> set (section_doc hs). item_ok it"
proof (cases hs)
  case Nil
  then show ?thesis by (simp add: good_literals)
next
  case (Cons h t)
  assume "\<forall>h \<in> set hs. LF \<notin> set h"
  then show ?thesis using Cons by (auto simp: good_dash)
qed

lemma section_doc_raw: "(\<exists>it \<in> set (section_doc hs). is_raw it) \<longleftrightarrow> 1 < length hs"
proof (cases hs)
  case Nil
  then show ?thesis by simp
next
  case (Cons h t)
  have "(\<exists>it \<in> set (map (\<lambda>x. Raw (''- '' @ x)) t). is_raw it) \<longleftrightarrow> t \<noteq> []"
    by (cases t) auto
  then show ?thesis using Cons by simp
qed

lemma summary_doc_ok:
  assumes "\<forall>h \<in> set d \<union> set m \<union> set a \<union> set p. LF \<notin> set h"
  shows "\<forall>it \<in> set (summary_doc n d m a p). item_ok it"
proof -
  have d: "\<forall>it \<in> set (section_doc d). item_ok it"
    using assms by (intro section_doc_ok) blast
  have m: "\<forall>it \<in> set (section_doc m). item_ok it"
    using assms by (intro section_doc_ok) blast
  have a: "\<forall>it \<in> set (section_doc a). item_ok it"
    using assms by (intro section_doc_ok) blast
  have p: "\<forall>it \<in> set (section_doc p). item_ok it"
    using assms by (intro section_doc_ok) blast
  have h: "good (''Placeholder health summary (no API key detected). Processed '' @ str_int n @
           '' PDF file(s).'')"
    by (intro good_append good_literals) (simp add: str_int_nolf [unfolded LF_def] LF_def)
  show ?thesis
    unfolding summary_doc_def set_append set_simps ball_Un ball_simps item_ok.simps
    using d m a p h good_literals by (intro conjI TrueI) assumption+
qed

lemma summary_doc_raw:
  "(\<exists>it \<in> set (summary_doc n d m a p). is_raw it) \<longleftrightarrow>
     1 < length d \<or> 1 < length m \<or> 1 < length a \<or> 1 < length p"
proof -
  have "(\<exists>it \<in> set (summary_doc n d m a p). is_raw it) \<longleftrightarrow>
      (\<exists>it \<in> set (section_doc d). is_raw it) \<or> (\<exists>it \<in> set (section_doc m). is_raw it) \<or>
      (\<exists>it \<in> set (section_doc a). is_raw it) \<or> (\<exists>it \<in> set (section_doc p). is_raw it)"
    unfolding summary_doc_def set_append set_simps bex_Un bex_simps is_raw.simps by blast
  then show ?thesis by (simp only: section_doc_raw)
qed

lemma summary_closed_form:
  assumes "\<forall>h \<in> set d \<union> set m \<union> set a \<union> set p. LF \<notin> set h"
  shows "py_strip (dedent (summary_template n (section_text d) (section_text m)
                             (section_text a) (section_text p))) =
         summary_body
           (if 1 < length d \<or> 1 < length m \<or> 1 < length a \<or> 1 < length p then indent8 else [])
           n (section_text d) (section_text m) (section_text a) (section_text p)"
proof -
  define ind where
    "ind = (if \<exists>it \<in> set (summary_doc n d m a p). is_raw it then indent8 else [])"
  define e where "e = ''- Verify details directly in the source PDFs before using clinically.''"
  have sp: "indent8 \<noteq> []" "list_all blank indent8"
    by (simp_all add: indent8_def blank_def)
  obtain h0 mid where doc: "summary_doc n d m a p = Line h0 # mid @ [Line e]"
    and h0: "hd h0 = CHR ''P''"
    unfolding summary_doc_def e_def by simp
  have first: "\<not> py_isspace (hd h0)" by (simp add: h0 py_isspace_def)
  have lst: "\<not> py_isspace (last e)"
    by (simp add: py_isspace_def e_def)
  have "py_strip (dedent (join [LF] ([] # map (render indent8) (summary_doc n d m a p) @ [indent8]))) =
      drop (length ind) (join [LF] (map (render ind) (summary_doc n d m a p)))"
    using sp doc summary_doc_ok [OF assms] first lst ind_def by (rule dedent_doc)
  then show ?thesis
    by (simp add: summary_template_join summary_doc_join ind_def summary_doc_raw)
qed


lemma splitlines_from_plain:
  "\<not> py_linebreak c \<Longrightarrow> splitlines_from cur (c # cs) = splitlines_from (c # cur) cs"
  by (subst splitlines_from.simps(2)) simp


lemma splitlines_from_last:
  "py_linebreak c \<Longrightarrow> splitlines_from cur [c] = [rev cur]"
  by (subst splitlines_from.simps(2)) simp


lemma splitlines_from_crlf:
  "py_linebreak c \<Longrightarrow> c = CR \<and> d = LF \<Longrightarrow>
     splitlines_from cur (c # d # ds) = rev cur # splitlines_from [] ds"
  by (subst splitlines_from.simps(2)) simp


lemma splitlines_from_break:
  "py_linebreak c \<Longrightarrow> \<not> (c = CR \<and> d = LF) \<Longrightarrow>
     splitlines_from cur (c # d # ds) = rev cur # splitlines_from [] (d # ds)"
  by (subst splitlines_from.simps(2)) auto


lemma splitlines_from_nobreak:
  "\<forall>c \<in> set cur. \<not> py_linebreak c \<Longrightarrow> l \<in> set (splitlines_from cur s) \<Longrightarrow>
     \<forall>c \<in> set l. \<not> py_linebreak c"
proof (induction cur s rule: splitlines_from.induct)
  case (1 cur)
  then show ?case by (cases "cur = []") simp_all
next
  case (2 cur c cs)
  note cur = \<open>\<forall>c \<in> set cur. \<not> py_linebreak c\<close>
  note mem = \<open>l \<in> set (splitlines_from cur (c # cs))\<close>
  show ?case
  proof (cases "py_linebreak c")
    case False
    have "\<forall>x \<in> set (c # cur). \<not> py_linebreak x" using False cur by simp
    moreover have "l \<in> set (splitlines_from (c # cur) cs)"
      using mem by (simp only: splitlines_from_plain [OF False])
    ultimately show ?thesis using "2.IH"(4) [OF False] by blast
  next
    case True
    show ?thesis
    proof (cases cs)
      case Nil
      have "l = rev cur" using mem by (simp only: Nil splitlines_from_last [OF True]) simp
      then show ?thesis using cur by simp
    next
      case (Cons d ds)
      show ?thesis
      proof (cases "c = CR \<and> d = LF")
        case t: True
        have "l = rev cur \<or> l \<in> set (splitlines_from [] ds)"
          using mem by (simp only: Cons splitlines_from_crlf [OF True t]) simp
        then show ?thesis
        proof
          assume "l = rev cur"
          then show ?thesis using cur by simp
        next
          assume "l \<in> set (splitlines_from [] ds)"
          then show ?thesis using "2.IH"(2) [OF True Cons t] by simp
        qed
      next
        case f: False
        have "l = rev cur \<or> l \<in> set (splitlines_from [] cs)"
          using mem by (simp only: Cons splitlines_from_break [OF True f]) simp
        then show ?thesis
        proof
          assume "l = rev cur"
          then show ?thesis using cur by simp
        next
          assume "l \<in> set (splitlines_from [] cs)"
          then show ?thesis using "2.IH"(3) [OF True Cons f] by simp
        qed
      qed
    qed
  qed
qed


lemma splitlines_nolf: "l \<in> set (splitlines s) \<Longrightarrow> LF \<notin> set l"
proof -
  assume "l \<in> set (splitlines s)"
  then have "\<forall>c \<in> set l. \<not> py_linebreak c"
    unfolding splitlines_def by (intro splitlines_from_nobreak [of "[]" l s]) simp_all
  moreover have "py_linebreak LF" by (simp add: py_linebreak_def LF_def)
  ultimately show ?thesis by blast
qed


lemma py_strip_subset: "set (py_strip l) \<subseteq> set l"
  unfolding py_strip_def by (auto dest!: set_dropWhileD)


lemma py_strip_idem: "py_strip (py_strip l) = py_strip l"
proof (cases "py_strip l = []")
  case True
  have "py_strip [] = []" by (simp add: py_strip_def)
  with True show ?thesis by simp
next
  case False
  define y where "y = dropWhile py_isspace l"
  define z where "z = rev (dropWhile py_isspace (rev y))"
  have z: "py_strip l = z" by (simp add: py_strip_def y_def z_def)
  with False have zne: "z \<noteq> []" by simp
  then have d: "dropWhile py_isspace (rev y) \<noteq> []" by (simp add: z_def)
  from hd_dropWhile [OF d] have lastz: "\<not> py_isspace (last z)"
    using d by (simp add: z_def last_rev)
  have "y \<noteq> []" using d by auto
  then have hy: "\<not> py_isspace (hd y)" unfolding y_def by (rule hd_dropWhile)
  have "rev y = takeWhile py_isspace (rev y) @ rev z"
    by (simp add: z_def)
  then have "y = z @ rev (takeWhile py_isspace (rev y))"
    by (metis rev_append rev_rev_ident)
  then have "hd y = hd z" using zne by (metis hd_append2)
  with hy have hz: "\<not> py_isspace (hd z)" by simp
  have "py_strip ([] @ z @ []) = z"
    using zne hz lastz by (intro py_strip_core) simp_all
  then show ?thesis by (simp add: z)
qed


lemma sample_lines_props:
  assumes "l \<in> set (sample_lines t)"
  shows "l \<noteq> []" and "py_strip l = l" and "LF \<notin> set l"
    and "\<exists>raw \<in> set (splitlines (replace_blank_lines (take 1200 t))). l = py_strip raw"
proof -
  from assms obtain raw where raw: "raw \<in> set (splitlines (replace_blank_lines (take 1200 t)))"
    and ne: "py_strip raw \<noteq> []" and l: "l = py_strip raw"
    by (auto simp: sample_lines_def slice_to_def Let_def)
  show "l \<noteq> []" using ne l by simp
  show "py_strip l = l" by (simp add: l py_strip_idem)
  show "LF \<notin> set l" using splitlines_nolf [OF raw] py_strip_subset [of raw] l by blast
  show "\<exists>raw \<in> set (splitlines (replace_blank_lines (take 1200 t))). l = py_strip raw"
    using raw l by blast
qed




lemma grep_loop_filter: "grep_loop keys hits ls = hits @ filter (matches keys) ls"
  by (induction ls arbitrary: hits) simp_all


lemma grep_filter: "grep keys ls = take 8 (filter (matches keys) ls)"
  by (simp add: grep_def grep_loop_filter slice_to_def)






lemma grep_subset: "set (grep keys ls) \<subseteq> set ls"
  by (auto simp: grep_filter dest: in_set_takeD)


lemma grep_nolf: "h \<in> set (grep keys (sample_lines t)) \<Longrightarrow> LF \<notin> set h"
  using grep_subset sample_lines_props(3) by blast


lemma naive_placeholder_summary_closed:
  "naive_placeholder_summary t n =
     (let ls = sample_lines t;
          d = grep diagnoses_keys ls; m = grep meds_keys ls;
          a = grep allergies_keys ls; p = grep procedures_keys ls
      in summary_body
           (if 1 < length d \<or> 1 < length m \<or> 1 < length a \<or> 1 < length p then indent8 else [])
           n (section_text d) (section_text m) (section_text a) (section_text p))"
proof -
  have "\<forall>h \<in> set (grep diagnoses_keys (sample_lines t)) \<union> set (grep meds_keys (sample_lines t)) \<union>
      set (grep allergies_keys (sample_lines t)) \<union> set (grep procedures_keys (sample_lines t)).
      LF \<notin> set h"
    using grep_nolf by blast
  from summary_closed_form [OF this] show ?thesis
    by (simp only: naive_placeholder_summary_def Let_def)
qed

lemma summary_body_prefix:
  "prefix (''Placeholder health summary (no API key detected). Processed '' @ str_int n @
           '' PDF file(s).'') (summary_body ind n dt mt alt pt)"
  by (simp add: summary_body_def)



text \<open>
  C6. The fallback summarizer is a function of the text and the document count alone: the
  same two arguments give the same output, character by character. It always returns: the
  output starts with the heading that carries the count, whatever the text.
\<close>

theorem naive_placeholder_summary_deterministic:
  "(t1 = t2 \<and> n1 = n2 \<longrightarrow>
      naive_placeholder_summary t1 n1 = naive_placeholder_summary t2 n2) \<and>
   prefix (''Placeholder health summary (no API key detected). Processed '' @ str_int n1 @
           '' PDF file(s).'') (naive_placeholder_summary t1 n1) \<and>
   naive_placeholder_summary t1 n1 \<noteq> []"
proof -
  have p: "prefix (''Placeholder health summary (no API key detected). Processed '' @ str_int n1 @
           '' PDF file(s).'') (naive_placeholder_summary t1 n1)"
    by (simp only: naive_placeholder_summary_closed Let_def summary_body_prefix)
  then have "naive_placeholder_summary t1 n1 \<noteq> []" by auto
  with p show ?thesis by simp
qed




theorem naive_placeholder_summary_deterministic_witness:
  "naive_placeholder_summary demo_text 2 = naive_placeholder_summary demo_text 2 \<and>
   prefix (''Placeholder health summary (no API key detected). Processed '' @ str_int 2 @
           '' PDF file(s).'') (naive_placeholder_summary demo_text 2) \<and>
   naive_placeholder_summary demo_text 2 \<noteq> []"
  using naive_placeholder_summary_deterministic [of demo_text demo_text 2 2] by simp

end
